theory Spec2Isabelle
  imports Main "HOL-Library.Word"
begin

unbundle bit_operations_syntax

section \<open>Processor and memory state of emu.c\<close>

text \<open>
  The emulator keeps its state in global variables: the program counter \<open>pc\<close>
  (uint16_t), the registers \<open>a\<close>, \<open>x\<close>, \<open>y\<close>, \<open>s\<close> and the flags \<open>p\<close> (uint8_t), and
  the array \<open>m[65536]\<close> of bytes. The single-letter globals are the fields
  \<open>reg_a\<close>, \<open>reg_x\<close>, \<open>reg_y\<close>, \<open>reg_s\<close>, \<open>reg_p\<close> and \<open>mem\<close> of the record below, so
  that the letters stay free as variables. The two streams the program writes are
  state as well: \<open>out\<close> is standard output (putchar and printf), \<open>err\<close> is
  standard error (the trace and perror).
\<close>

type_synonym u8 = "8 word"
type_synonym u16 = "16 word"

text \<open>
  The array \<open>m\<close> has the valid indices 0..65535, which are exactly the values of a
  \<open>u16\<close>. An index computed in C's \<open>int\<close> can leave that range; such an access
  is outside the array and is a fault of the model.
\<close>

type_synonym memory = "u16 \<Rightarrow> u8"

datatype fault = OutOfBounds int

record machine =
  pc :: u16
  reg_a :: u8
  reg_x :: u8
  reg_y :: u8
  reg_s :: u8
  reg_p :: u8
  mem :: memory
  out :: string
  err :: string

text \<open>enum { CF=0,ZF,IF,DF,BF,XX,VF,NF }: the bit positions in the flags register.\<close>

definition CF :: nat where "CF = 0"
definition ZF :: nat where "ZF = 1"
definition IF :: nat where "IF = 2"
definition DF :: nat where "DF = 3"
definition BF :: nat where "BF = 4"
definition XX :: nat where "XX = 5"
definition VF :: nat where "VF = 6"
definition NF :: nat where "NF = 7"

subsection \<open>Memory access\<close>

text \<open>\<open>m[i]\<close> for an index \<open>i\<close> of type int.\<close>

definition m_at :: "memory \<Rightarrow> int \<Rightarrow> fault + u8" where
  "m_at mm i = (if 0 \<le> i \<and> i < 65536 then Inr (mm (word_of_int i)) else Inl (OutOfBounds i))"

text \<open>\<open>m[i] = v\<close> for an index \<open>i\<close> of type int.\<close>

definition m_set :: "memory \<Rightarrow> int \<Rightarrow> u8 \<Rightarrow> fault + memory" where
  "m_set mm i v = (if 0 \<le> i \<and> i < 65536 then Inr (mm(word_of_int i := v)) else Inl (OutOfBounds i))"

text \<open>\<open>r8\<close>: the index is the uint16_t parameter itself, always inside the array.\<close>

definition r8 :: "memory \<Rightarrow> u16 \<Rightarrow> u8" where
  "r8 mm addr = mm addr"

text \<open>
  \<open>r16\<close>: \<open>m[addr] + ((uint16_t)m[addr+1] << 8)\<close>. The index \<open>addr+1\<close> is computed
  in int (integer promotion), so it is 65536 for \<open>addr = 0xFFFF\<close>. The sum is at most
  0xFFFF and is returned as uint16_t.
\<close>

definition r16 :: "memory \<Rightarrow> u16 \<Rightarrow> fault + u16" where
  "r16 mm addr =
     (case m_at mm (uint addr + 1) of
        Inl f \<Rightarrow> Inl f
      | Inr hi \<Rightarrow> Inr (word_of_int (uint (mm addr) + push_bit 8 (uint (ucast hi :: u16)))))"

text \<open>\<open>putchar\<close>: one character appended to standard output.\<close>

definition putchar :: "machine \<Rightarrow> u8 \<Rightarrow> machine" where
  "putchar st val = st\<lparr>out := out st @ [char_of (unat val)]\<rparr>"

text \<open>\<open>w8\<close>: the memory-mapped output device at 0xC000, any other address is stored.\<close>

definition w8 :: "machine \<Rightarrow> u16 \<Rightarrow> u8 \<Rightarrow> machine" where
  "w8 st addr val =
     (if addr = 0xC000 then putchar st val
      else st\<lparr>mem := (mem st)(addr := val)\<rparr>)"

text \<open>
  \<open>w16\<close>: \<open>m[addr] = val & 0xFF; m[addr + 1] = val >> 8;\<close>. Both stores go to the
  array directly; the second index is computed in int.
\<close>

definition w16 :: "machine \<Rightarrow> u16 \<Rightarrow> u16 \<Rightarrow> fault + machine" where
  "w16 st addr val =
     (let m1 = (mem st)(addr := ucast (val AND 0xFF))
      in case m_set m1 (uint addr + 1) (ucast (drop_bit 8 val)) of
           Inl f \<Rightarrow> Inl f
         | Inr m2 \<Rightarrow> Inr (st\<lparr>mem := m2\<rparr>))"

subsection \<open>Flag helpers\<close>

definition set_z :: "machine \<Rightarrow> machine" where
  "set_z st = st\<lparr>reg_p := reg_p st OR push_bit ZF 1\<rparr>"

definition clr_z :: "machine \<Rightarrow> machine" where
  "clr_z st = st\<lparr>reg_p := reg_p st AND NOT (push_bit ZF 1)\<rparr>"

definition set_n :: "machine \<Rightarrow> machine" where
  "set_n st = st\<lparr>reg_p := reg_p st OR push_bit NF 1\<rparr>"

definition clr_n :: "machine \<Rightarrow> machine" where
  "clr_n st = st\<lparr>reg_p := reg_p st AND NOT (push_bit NF 1)\<rparr>"

definition get_c :: "machine \<Rightarrow> int" where
  "get_c st = (if reg_p st AND push_bit CF 1 \<noteq> 0 then 1 else 0)"

definition set_c :: "machine \<Rightarrow> machine" where
  "set_c st = st\<lparr>reg_p := reg_p st OR push_bit CF 1\<rparr>"

definition clr_c :: "machine \<Rightarrow> machine" where
  "clr_c st = st\<lparr>reg_p := reg_p st AND NOT (push_bit CF 1)\<rparr>"

subsection \<open>Formatted output\<close>

text \<open>The conversions \<open>%02x\<close> of a byte and \<open>%04x\<close> of a 16-bit value.\<close>

definition hexdigit :: "nat \<Rightarrow> char" where
  "hexdigit n = ''0123456789abcdef'' ! (n mod 16)"

definition hex2 :: "u8 \<Rightarrow> string" where
  "hex2 v = [hexdigit (unat v div 16), hexdigit (unat v)]"

definition hex4 :: "u16 \<Rightarrow> string" where
  "hex4 w = [hexdigit (unat w div 4096), hexdigit (unat w div 256),
             hexdigit (unat w div 16), hexdigit (unat w)]"

text \<open>\<open>fprintf(stderr, "PC: %04x opcode = %02x ", pc, opcode)\<close>\<close>

definition trace_fetch :: "machine \<Rightarrow> u8 \<Rightarrow> machine" where
  "trace_fetch st opcode =
     st\<lparr>err := err st @ ''PC: '' @ hex4 (pc st) @ '' opcode = '' @ hex2 opcode @ '' ''\<rparr>"

text \<open>\<open>fprintf(stderr, "a: %02x x: %02x y: %02x s: 01%02x p: %02x\n", a, x, y, s, p)\<close>\<close>

definition trace_regs :: "machine \<Rightarrow> machine" where
  "trace_regs st =
     st\<lparr>err := err st @ ''a: '' @ hex2 (reg_a st) @ '' x: '' @ hex2 (reg_x st)
            @ '' y: '' @ hex2 (reg_y st) @ '' s: 01'' @ hex2 (reg_s st)
            @ '' p: '' @ hex2 (reg_p st) @ [CHR 0x0A]\<rparr>"

text \<open>\<open>printf("Unknown opcode %02x at address %04x\n", opcode, pc)\<close>\<close>

definition unknown_opcode_msg :: "u8 \<Rightarrow> u16 \<Rightarrow> string" where
  "unknown_opcode_msg opcode addr =
     ''Unknown opcode '' @ hex2 opcode @ '' at address '' @ hex4 addr @ [CHR 0x0A]"

section \<open>The emulation loop\<close>

text \<open>
  What one pass through the body of \<open>while (1)\<close> does: the loop goes on with a new
  state, or the process exits with a code, or an access left the array \<open>m\<close>.
\<close>

datatype outcome = Running machine | Exited int machine | Fault fault

text \<open>\<open>if (a == 0) set_z(); else clr_z(); if ((a & 0x80) != 0) set_n(); else clr_n();\<close>\<close>

definition set_zn :: "machine \<Rightarrow> machine" where
  "set_zn st =
     (let st1 = (if reg_a st = 0 then set_z st else clr_z st)
      in if reg_a st1 AND 0x80 \<noteq> 0 then set_n st1 else clr_n st1)"

text \<open>The cases of \<open>switch(opcode)\<close>, in the order of the source.\<close>

definition op_brk :: "machine \<Rightarrow> outcome" where
  "op_brk st = Exited 0 st"

definition op_nop :: "machine \<Rightarrow> outcome" where
  "op_nop st = Running (st\<lparr>pc := pc st + 1\<rparr>)"

definition op_clc :: "machine \<Rightarrow> outcome" where
  "op_clc st = (let st1 = clr_c st in Running (st1\<lparr>pc := pc st1 + 1\<rparr>))"

definition op_lda :: "machine \<Rightarrow> outcome" where
  "op_lda st =
     (let param8 = r8 (mem st) (pc st + 1);
          st1 = st\<lparr>reg_a := param8\<rparr>;
          st2 = set_zn st1
      in Running (st2\<lparr>pc := pc st2 + 2\<rparr>))"

definition op_sta :: "machine \<Rightarrow> outcome" where
  "op_sta st =
     (case r16 (mem st) (pc st + 1) of
        Inl f \<Rightarrow> Fault f
      | Inr param16 \<Rightarrow>
          (let st1 = w8 st param16 (reg_a st)
           in Running (st1\<lparr>pc := pc st1 + 3\<rparr>)))"

definition op_adc :: "machine \<Rightarrow> outcome" where
  "op_adc st =
     (let param8 = r8 (mem st) (pc st + 1);
          st1 = st\<lparr>reg_a := word_of_int (uint (reg_a st) + uint param8 + get_c st)\<rparr>;
          st2 = set_zn st1
      in Running (st2\<lparr>pc := pc st2 + 2\<rparr>))"

definition op_cmp :: "machine \<Rightarrow> outcome" where
  "op_cmp st =
     (let param8 = r8 (mem st) (pc st + 1);
          st1 = (if reg_a st = param8 then set_c (set_z st) else st);
          st2 = (if reg_a st1 < param8 then clr_c (clr_z st1) else st1);
          st3 = (if reg_a st2 > param8 then set_c (clr_z st2) else st2)
      in Running (st3\<lparr>pc := pc st3 + 2\<rparr>))"

definition op_bcc :: "machine \<Rightarrow> outcome" where
  "op_bcc st =
     (let param8 = r8 (mem st) (pc st + 1)
      in if get_c st = 1 then Running (st\<lparr>pc := pc st + 2\<rparr>)
         else (let offset = sint param8
               in Running (st\<lparr>pc := word_of_int (uint (pc st) + 2 + offset)\<rparr>)))"

definition op_default :: "u8 \<Rightarrow> machine \<Rightarrow> outcome" where
  "op_default opcode st = Exited 1 (st\<lparr>out := out st @ unknown_opcode_msg opcode (pc st)\<rparr>)"

definition dispatch :: "u8 \<Rightarrow> machine \<Rightarrow> outcome" where
  "dispatch opcode st =
     (if opcode = 0x00 then op_brk st
      else if opcode = 0xEA then op_nop st
      else if opcode = 0x18 then op_clc st
      else if opcode = 0xA9 then op_lda st
      else if opcode = 0x8D then op_sta st
      else if opcode = 0x69 then op_adc st
      else if opcode = 0xC9 then op_cmp st
      else if opcode = 0x90 then op_bcc st
      else op_default opcode st)"

text \<open>
  One pass of the loop body: fetch, first half of the trace, the switch, and (when the
  switch did not exit) the second half of the trace.
\<close>

definition step :: "machine \<Rightarrow> outcome" where
  "step st =
     (let opcode = r8 (mem st) (pc st)
      in case dispatch opcode (trace_fetch st opcode) of
           Running st' \<Rightarrow> Running (trace_regs st')
         | Exited code st' \<Rightarrow> Exited code st'
         | Fault f \<Rightarrow> Fault f)"

text \<open>
  \<open>while (1)\<close>: the loop ends only through \<open>exit\<close>. A program that never reaches BRK
  or an unknown opcode runs forever, which is the value \<open>None\<close>.
\<close>

partial_function (option) run :: "machine \<Rightarrow> (fault + int \<times> machine) option" where
  "run st =
     (case step st of
        Running st' \<Rightarrow> run st'
      | Exited code st' \<Rightarrow> Some (Inr (code, st'))
      | Fault f \<Rightarrow> Some (Inl f))"

text \<open>The same loop cut off after \<open>n\<close> passes.\<close>

fun steps :: "nat \<Rightarrow> machine \<Rightarrow> outcome" where
  "steps 0 st = Running st"
| "steps (Suc n) st =
     (case step st of
        Running st' \<Rightarrow> steps n st'
      | Exited code st' \<Rightarrow> Exited code st'
      | Fault f \<Rightarrow> Fault f)"

subsection \<open>Start-up\<close>

text \<open>
  The globals before \<open>main\<close> runs: \<open>m\<close> is zero-initialised, and so are the other
  globals; nothing has been written to the streams.
\<close>

definition globals0 :: machine where
  "globals0 = \<lparr>pc = 0, reg_a = 0, reg_x = 0, reg_y = 0, reg_s = 0, reg_p = 0,
               mem = (\<lambda>_. 0), out = [], err = []\<rparr>"

text \<open>\<open>read(fd, m, 65536)\<close>: at most 65536 bytes of the file, copied to \<open>m\<close> from index 0.\<close>

definition load_image :: "u8 list \<Rightarrow> memory \<Rightarrow> memory" where
  "load_image bytes mm =
     (\<lambda>addr. if unat addr < length (take 65536 bytes) then bytes ! unat addr else mm addr)"

text \<open>
  \<open>main\<close> up to the loop. The file is \<open>Inl msg\<close> when \<open>open\<close> fails (\<open>msg\<close> is the text
  perror prints for errno), and \<open>Inr bytes\<close> otherwise.
\<close>

definition boot :: "string + u8 list \<Rightarrow> outcome" where
  "boot file =
     (case file of
        Inl msg \<Rightarrow> Exited 1 (globals0\<lparr>err := ''open: '' @ msg @ [CHR 0x0A]\<rparr>)
      | Inr bytes \<Rightarrow>
          (let st0 = globals0\<lparr>mem := load_image bytes (mem globals0)\<rparr>
           in case w16 st0 0xFFFC 0 of
                Inl f \<Rightarrow> Fault f
              | Inr st1 \<Rightarrow>
                  (case r16 (mem st1) 0xFFFC of
                     Inl f \<Rightarrow> Fault f
                   | Inr start \<Rightarrow>
                       Running (st1\<lparr>pc := start, reg_a := 0, reg_x := 0, reg_y := 0,
                                    reg_s := 0, reg_p := 0\<rparr>))))"

definition emu_main :: "string + u8 list \<Rightarrow> (fault + int \<times> machine) option" where
  "emu_main file =
     (case boot file of
        Running st \<Rightarrow> run st
      | Exited code st \<Rightarrow> Some (Inr (code, st))
      | Fault f \<Rightarrow> Some (Inl f))"

section \<open>Example images and states\<close>

text \<open>
  States for trying the theorems out: the zeroed globals with an image copied to \<open>m\<close>.
\<close>

definition image_state :: "u8 list \<Rightarrow> machine" where
  "image_state bytes = globals0\<lparr>mem := load_image bytes (mem globals0)\<rparr>"

text \<open>
  The example program of the repository, assembled at address 0:
  CLC; LDA #0x41; loop: STA 0xC000; ADC #0x01; CMP #0x5B; BCC loop; BRK.
\<close>

definition abc_image :: "u8 list" where
  "abc_image = [0x18, 0xA9, 0x41, 0x8D, 0x00, 0xC0, 0x69, 0x01, 0xC9, 0x5B, 0x90, 0xF7, 0x00]"

text \<open>The memory after start-up with that image.\<close>

definition abc_mem :: memory where
  "abc_mem = (load_image abc_image (\<lambda>_. 0))(0xFFFC := 0, 0xFFFD := 0)"

definition abc_start :: machine where
  "abc_start = globals0\<lparr>mem := abc_mem\<rparr>"

definition abc_pass1 :: machine where
  "abc_pass1 = trace_regs ((clr_c (trace_fetch abc_start 0x18))\<lparr>pc := 1\<rparr>)"

definition abc_pass2 :: machine where
  "abc_pass2 = trace_regs ((set_zn ((trace_fetch abc_pass1 0xA9)\<lparr>reg_a := 0x41\<rparr>))\<lparr>pc := 3\<rparr>)"

text \<open>
  An image of 65535 bytes: BCC -4 at address 0, which branches to 0xFFFE while Carry is
  clear, and the opcode of STA at 0xFFFE.
\<close>

definition top_image :: "u8 list" where
  "top_image = 0x90 # 0xFC # replicate 65532 0 @ [0x8D]"

text \<open>
  The 16-bit write as the specification words it, for comparison with \<open>w16\<close>: the low
  byte through \<open>w8\<close> at \<open>addr\<close>, then the high byte through \<open>w8\<close> at \<open>addr + 1\<close>
  modulo 65536, so that each byte meets the output device at 0xC000.
\<close>

definition w16_spec :: "machine \<Rightarrow> u16 \<Rightarrow> u16 \<Rightarrow> machine" where
  "w16_spec st addr val =
     w8 (w8 st addr (ucast (val AND 0xFF))) (addr + 1) (ucast (drop_bit 8 val))"

definition adc_state :: machine where
  "adc_state = (image_state [0x69, 0x05])\<lparr>reg_a := 0xFE, reg_p := 0x01\<rparr>"

definition wrap_state :: machine where
  "wrap_state = image_state [0xA9, 0xFF, 0x18, 0x69, 0x01]"

definition cmp_state :: machine where
  "cmp_state = (image_state [0xC9, 0x5B])\<lparr>reg_a := 0x42\<rparr>"

definition bcc_state :: machine where
  "bcc_state = (image_state abc_image)\<lparr>pc := 10\<rparr>"

definition odd_state :: machine where
  "odd_state = (image_state [])\<lparr>pc := 0x12AB, mem := (\<lambda>_. 0)(0x12AB := 0x3C)\<rparr>"

section \<open>Properties of the helpers\<close>

subsection \<open>Flag bits\<close>

lemma bit_or_exp: "n < 8 \<Longrightarrow> bit ((w::u8) OR 2 ^ n) i \<longleftrightarrow> bit w i \<or> i = n"
  by (auto simp: bit_or_iff bit_exp_iff dest: bit_imp_le_length)

lemma bit_and_not_exp: "bit ((w::u8) AND NOT (2 ^ n)) i \<longleftrightarrow> bit w i \<and> i \<noteq> n"
  by (auto simp: bit_and_iff bit_not_iff bit_exp_iff dest: bit_imp_le_length)

lemma bit_set_z: "bit (reg_p (set_z st)) i \<longleftrightarrow> bit (reg_p st) i \<or> i = ZF"
  using bit_or_exp [of ZF "reg_p st" i] by (simp add: set_z_def ZF_def)

lemma bit_clr_z: "bit (reg_p (clr_z st)) i \<longleftrightarrow> bit (reg_p st) i \<and> i \<noteq> ZF"
  using bit_and_not_exp [of "reg_p st" ZF i] by (simp add: clr_z_def)

lemma bit_set_n: "bit (reg_p (set_n st)) i \<longleftrightarrow> bit (reg_p st) i \<or> i = NF"
  using bit_or_exp [of NF "reg_p st" i] by (simp add: set_n_def NF_def)

lemma bit_clr_n: "bit (reg_p (clr_n st)) i \<longleftrightarrow> bit (reg_p st) i \<and> i \<noteq> NF"
  using bit_and_not_exp [of "reg_p st" NF i] by (simp add: clr_n_def)

lemma bit_set_c: "bit (reg_p (set_c st)) i \<longleftrightarrow> bit (reg_p st) i \<or> i = CF"
  using bit_or_exp [of CF "reg_p st" i] by (simp add: set_c_def CF_def)

lemma bit_clr_c: "bit (reg_p (clr_c st)) i \<longleftrightarrow> bit (reg_p st) i \<and> i \<noteq> CF"
  using bit_and_not_exp [of "reg_p st" CF i] by (simp add: clr_c_def)

lemmas bit_flag_simps = bit_set_z bit_clr_z bit_set_n bit_clr_n bit_set_c bit_clr_c

lemma get_c_bit: "get_c st = (if bit (reg_p st) CF then 1 else 0)"
  by (simp add: get_c_def CF_def and_one_eq mod_2_eq_odd bit_0)

lemma and_0x80: "(v :: u8) AND 0x80 \<noteq> 0 \<longleftrightarrow> bit v 7"
  using and_exp_eq_0_iff_not_bit [of v 7] by simp

text \<open>The flag helpers touch nothing but the flags register.\<close>

lemma flag_frame [simp]:
  "pc (set_z st) = pc st" "pc (clr_z st) = pc st" "pc (set_n st) = pc st"
  "pc (clr_n st) = pc st" "pc (set_c st) = pc st" "pc (clr_c st) = pc st"
  "reg_a (set_z st) = reg_a st" "reg_a (clr_z st) = reg_a st" "reg_a (set_n st) = reg_a st"
  "reg_a (clr_n st) = reg_a st" "reg_a (set_c st) = reg_a st" "reg_a (clr_c st) = reg_a st"
  "mem (set_z st) = mem st" "mem (clr_z st) = mem st" "mem (set_n st) = mem st"
  "mem (clr_n st) = mem st" "mem (set_c st) = mem st" "mem (clr_c st) = mem st"
  "out (set_z st) = out st" "out (clr_z st) = out st" "out (set_n st) = out st"
  "out (clr_n st) = out st" "out (set_c st) = out st" "out (clr_c st) = out st"
  by (simp_all add: set_z_def clr_z_def set_n_def clr_n_def set_c_def clr_c_def)

lemma set_zn_frame [simp]:
  "pc (set_zn st) = pc st" "reg_a (set_zn st) = reg_a st"
  "mem (set_zn st) = mem st" "out (set_zn st) = out st"
  by (simp_all add: set_zn_def Let_def)

lemma bit_set_zn:
  "bit (reg_p (set_zn st)) i \<longleftrightarrow>
     (if i = ZF then reg_a st = 0 else if i = NF then bit (reg_a st) 7 else bit (reg_p st) i)"
  by (auto simp: set_zn_def Let_def and_0x80 bit_flag_simps ZF_def NF_def)

lemma trace_frame [simp]:
  "pc (trace_fetch st opc) = pc st" "reg_a (trace_fetch st opc) = reg_a st"
  "reg_p (trace_fetch st opc) = reg_p st" "mem (trace_fetch st opc) = mem st"
  "out (trace_fetch st opc) = out st"
  "pc (trace_regs st) = pc st" "reg_a (trace_regs st) = reg_a st"
  "reg_p (trace_regs st) = reg_p st" "mem (trace_regs st) = mem st"
  "out (trace_regs st) = out st"
  by (simp_all add: trace_fetch_def trace_regs_def)

lemma get_c_trace [simp]: "get_c (trace_fetch st opc) = get_c st"
  by (simp add: get_c_def)

lemma get_c_set_zn [simp]: "get_c (set_zn st) = get_c st"
  by (simp add: get_c_bit bit_set_zn CF_def ZF_def NF_def)

lemma adc_value:
  "unat (word_of_int (uint a + uint v + (if cb then 1 else 0)) :: u8)
     = (unat a + unat v + (if cb then 1 else 0)) mod 256"
proof -
  have "uint (word_of_int (uint a + uint v + (if cb then 1 else 0)) :: u8)
          = (uint a + uint v + (if cb then 1 else 0)) mod 256"
    by (simp only: uint_word_of_int) simp
  also have "\<dots> = int ((unat a + unat v + (if cb then 1 else 0)) mod 256)"
    by (simp add: zmod_int)
  finally show ?thesis
    by (simp only: unat_eq_nat_uint nat_int)
qed

lemma bcc_value:
  "uint (word_of_int (uint w + 2 + sint b) :: u16) = (uint w + 2 + sint b) mod 65536"
  by (simp only: uint_word_of_int) simp




subsection \<open>One pass of the loop for each opcode\<close>

lemma step_brk:
  "mem st (pc st) = 0x00 \<Longrightarrow> step st = Exited 0 (trace_fetch st 0x00)"
  by (simp add: step_def r8_def dispatch_def op_brk_def)

lemma step_nop:
  "mem st (pc st) = 0xEA \<Longrightarrow>
     step st = Running (trace_regs ((trace_fetch st 0xEA)\<lparr>pc := pc st + 1\<rparr>))"
  by (simp add: step_def r8_def dispatch_def op_nop_def)

lemma step_clc:
  "mem st (pc st) = 0x18 \<Longrightarrow>
     step st = Running (trace_regs ((clr_c (trace_fetch st 0x18))\<lparr>pc := pc st + 1\<rparr>))"
  by (simp add: step_def r8_def dispatch_def op_clc_def)

lemma step_lda:
  "mem st (pc st) = 0xA9 \<Longrightarrow>
     step st = Running (trace_regs
       ((set_zn ((trace_fetch st 0xA9)\<lparr>reg_a := mem st (pc st + 1)\<rparr>))\<lparr>pc := pc st + 2\<rparr>))"
  by (simp add: step_def r8_def dispatch_def op_lda_def)

lemma step_adc:
  "mem st (pc st) = 0x69 \<Longrightarrow>
     step st = Running (trace_regs
       ((set_zn ((trace_fetch st 0x69)
           \<lparr>reg_a := word_of_int (uint (reg_a st) + uint (mem st (pc st + 1)) + get_c st)\<rparr>))
        \<lparr>pc := pc st + 2\<rparr>))"
  by (simp add: step_def r8_def dispatch_def op_adc_def)

lemma step_bcc:
  "mem st (pc st) = 0x90 \<Longrightarrow>
     step st = Running (trace_regs ((trace_fetch st 0x90)
       \<lparr>pc := if get_c st = 1 then pc st + 2
              else word_of_int (uint (pc st) + 2 + sint (mem st (pc st + 1)))\<rparr>))"
  by (simp add: step_def r8_def dispatch_def op_bcc_def)


subsection \<open>The loop and start-up\<close>

lemma run_exit: "step st = Exited code st' \<Longrightarrow> run st = Some (Inr (code, st'))"
  by (subst run.simps) simp

lemma run_next: "step st = Running st' \<Longrightarrow> run st = run st'"
  by (subst run.simps) simp

lemma run_fault: "step st = Fault f \<Longrightarrow> run st = Some (Inl f)"
  by (subst run.simps) simp

lemma boot_image:
  "boot (Inr bytes) =
     Running (globals0\<lparr>mem := (load_image bytes (\<lambda>_. 0))(0xFFFC := 0, 0xFFFD := 0)\<rparr>)"
  by (simp add: boot_def globals0_def w16_def m_set_def r16_def m_at_def Let_def)

subsection \<open>Memory and the store instruction\<close>

lemma abc_mem_at:
  "abc_mem 0 = 0x18" "abc_mem 1 = 0xA9" "abc_mem 2 = 0x41" "abc_mem 3 = 0x8D"
  "abc_mem 4 = 0x00" "abc_mem 5 = 0xC0" "abc_mem 6 = 0x69" "abc_mem 7 = 0x01"
  "abc_mem 8 = 0xC9" "abc_mem 9 = 0x5B" "abc_mem 10 = 0x90" "abc_mem 11 = 0xF7"
  "abc_mem 12 = 0x00"
  by (simp_all add: abc_mem_def abc_image_def load_image_def)

lemma r16_in_range:
  assumes "addr \<noteq> 0xFFFF"
  shows "r16 mm addr = Inr (word_of_int (uint (mm addr) + push_bit 8 (uint (mm (addr + 1)))))"
proof -
  have "uint addr \<noteq> uint (0xFFFF :: u16)"
    using assms by (simp only: word_uint_eq_iff not_False_eq_True)
  then have "uint addr \<noteq> 65535"
    by simp
  moreover have "uint addr < 65536"
    using uint_lt2p [of addr] by simp
  ultimately have lt: "uint addr + 1 < 65536" by simp
  have "word_of_int (uint addr + 1) = addr + 1"
    by simp
  with lt show ?thesis
    by (simp add: r16_def m_at_def uint_up_ucast is_up)
qed

lemma step_sta:
  assumes "mem st (pc st) = 0x8D" and "pc st \<noteq> 0xFFFE"
  shows "step st = Running (trace_regs
       ((w8 (trace_fetch st 0x8D)
            (word_of_int (uint (mem st (pc st + 1)) + push_bit 8 (uint (mem st (pc st + 2)))))
            (reg_a st))
        \<lparr>pc := pc st + 3\<rparr>))"
proof -
  have "pc st + 1 \<noteq> 0xFFFE + 1"
    using assms(2) by (simp only: add_right_cancel not_False_eq_True)
  then have "pc st + 1 \<noteq> 0xFFFF"
    by simp
  then have "r16 (mem st) (pc st + 1)
      = Inr (word_of_int (uint (mem st (pc st + 1)) + push_bit 8 (uint (mem st (pc st + 2)))))"
    by (simp add: r16_in_range add.assoc)
  with assms(1) show ?thesis
    by (simp add: step_def r8_def dispatch_def op_sta_def w8_def putchar_def)
qed

lemma step_cmp:
  assumes "mem st (pc st) = 0xC9"
  shows "step st = Running (trace_regs
       ((if reg_a st = mem st (pc st + 1) then set_c (set_z (trace_fetch st 0xC9))
         else if reg_a st < mem st (pc st + 1) then clr_c (clr_z (trace_fetch st 0xC9))
         else set_c (clr_z (trace_fetch st 0xC9)))
        \<lparr>pc := pc st + 2\<rparr>))"
  using assms by (auto simp: step_def r8_def dispatch_def op_cmp_def Let_def)


subsection \<open>The example program\<close>

lemma get_c_w8 [simp]: "get_c (w8 st addr v) = get_c st"
  by (simp add: get_c_def w8_def putchar_def)

lemma w8_frame [simp]:
  "pc (w8 st addr v) = pc st" "reg_a (w8 st addr v) = reg_a st"
  by (simp_all add: w8_def putchar_def)

lemma w8_device [simp]:
  "mem (w8 st 0xC000 v) = mem st" "out (w8 st 0xC000 v) = out st @ [char_of (unat v)]"
  by (simp_all add: w8_def putchar_def)

lemma char_Z: "char_of (90 :: nat) = CHR ''Z''"
  by code_simp

lemma get_c_trace_regs [simp]: "get_c (trace_regs st) = get_c st"
  by (simp add: get_c_def)

lemma get_c_pc_update [simp]: "get_c (st\<lparr>pc := w\<rparr>) = get_c st"
  by (simp add: get_c_def)

lemma get_c_a_update [simp]: "get_c (st\<lparr>reg_a := w\<rparr>) = get_c st"
  by (simp add: get_c_def)

lemma get_c_clr_c [simp]: "get_c (clr_c st) = 0"
  by (simp add: get_c_bit bit_clr_c)

lemma get_c_set_c [simp]: "get_c (set_c st) = 1"
  by (simp add: get_c_bit bit_set_c)

lemma steps_add:
  "steps k st = Running st' \<Longrightarrow> steps (k + n) st = steps n st'"
proof (induction k arbitrary: st)
  case 0
  then show ?case by simp
next
  case (Suc k)
  then show ?case
    by (cases "step st") simp_all
qed

lemma run_steps:
  "steps n st = Exited code st' \<Longrightarrow> run st = Some (Inr (code, st'))"
proof (induction n arbitrary: st)
  case 0
  then show ?case by simp
next
  case (Suc n)
  then show ?case
    by (cases "step st") (simp_all add: run_next run_exit)
qed

text \<open>One turn of the loop of the example program: STA, ADC, CMP and the taken BCC.\<close>

lemma abc_loop_pass:
  assumes "mem st = abc_mem" "pc st = 3" "get_c st = 0" "reg_a st = c"
    and "c \<le> 0x59"
  shows "\<exists>st'. steps 4 st = Running st' \<and> mem st' = abc_mem \<and> pc st' = 3
           \<and> get_c st' = 0 \<and> reg_a st' = c + 1 \<and> out st' = out st @ [char_of (unat c)]"
proof -
  define s1 where "s1 = trace_regs ((w8 (trace_fetch st 0x8D) 0xC000 c)\<lparr>pc := 6\<rparr>)"
  define s2 where "s2 = trace_regs ((set_zn ((trace_fetch s1 0x69)\<lparr>reg_a := c + 1\<rparr>))\<lparr>pc := 8\<rparr>)"
  define s3 where "s3 = trace_regs ((clr_c (clr_z (trace_fetch s2 0xC9)))\<lparr>pc := 10\<rparr>)"
  define s4 where "s4 = trace_regs ((trace_fetch s3 0x90)\<lparr>pc := 3\<rparr>)"
  have lt: "c + 1 < 0x5B" "c + 1 \<noteq> 0x5B"
    using assms(5) by unat_arith+
  have 1: "step st = Running s1"
    using assms by (simp add: step_sta abc_mem_at s1_def)
  have f1: "mem s1 = abc_mem" "pc s1 = 6" "get_c s1 = 0" "reg_a s1 = c"
    "out s1 = out st @ [char_of (unat c)]"
    using assms by (simp_all add: s1_def)
  have 2: "step s1 = Running s2"
    using f1 by (simp add: step_adc abc_mem_at s2_def)
  have f2: "mem s2 = abc_mem" "pc s2 = 8" "get_c s2 = 0" "reg_a s2 = c + 1" "out s2 = out s1"
    using f1 by (simp_all add: s2_def)
  have 3: "step s2 = Running s3"
    using f2 lt by (simp add: step_cmp abc_mem_at s3_def)
  have f3: "mem s3 = abc_mem" "pc s3 = 10" "get_c s3 = 0" "reg_a s3 = c + 1" "out s3 = out s2"
    using f2 by (simp_all add: s3_def)
  have "(word_of_int (uint (10 :: u16) + 2 + sint (0xF7 :: u8)) :: u16) = 3"
    by simp
  then have 4: "step s3 = Running s4"
    using f3 by (simp add: step_bcc abc_mem_at s4_def)
  have f4: "mem s4 = abc_mem" "pc s4 = 3" "get_c s4 = 0" "reg_a s4 = c + 1" "out s4 = out s3"
    using f3 by (simp_all add: s4_def)
  have "steps (Suc (Suc (Suc (Suc 0)))) st = Running s4"
    by (simp add: 1 2 3 4)
  then have "steps 4 st = Running s4"
    by (simp add: numeral_eq_Suc)
  with f4 f3 f2 f1 show ?thesis
    by simp
qed

text \<open>The last turn: the accumulator reaches 0x5B, the branch falls through to BRK.\<close>

lemma abc_last_pass:
  assumes "mem st = abc_mem" "pc st = 3" "get_c st = 0" "reg_a st = 0x5A"
  shows "\<exists>st'. steps 5 st = Exited 0 st' \<and> out st' = out st @ ''Z''
           \<and> pc st' = 12 \<and> mem st' = abc_mem"
proof -
  define s1 where "s1 = trace_regs ((w8 (trace_fetch st 0x8D) 0xC000 0x5A)\<lparr>pc := 6\<rparr>)"
  define s2 where "s2 = trace_regs ((set_zn ((trace_fetch s1 0x69)\<lparr>reg_a := 0x5B\<rparr>))\<lparr>pc := 8\<rparr>)"
  define s3 where "s3 = trace_regs ((set_c (set_z (trace_fetch s2 0xC9)))\<lparr>pc := 10\<rparr>)"
  define s4 where "s4 = trace_regs ((trace_fetch s3 0x90)\<lparr>pc := 12\<rparr>)"
  define s5 where "s5 = trace_fetch s4 0x00"
  have 1: "step st = Running s1"
    using assms by (simp add: step_sta abc_mem_at s1_def)
  have f1: "mem s1 = abc_mem" "pc s1 = 6" "get_c s1 = 0" "reg_a s1 = 0x5A"
    "out s1 = out st @ ''Z''"
    using assms by (simp_all add: s1_def char_Z)
  have 2: "step s1 = Running s2"
    using f1 by (simp add: step_adc abc_mem_at s2_def)
  have f2: "mem s2 = abc_mem" "pc s2 = 8" "reg_a s2 = 0x5B" "out s2 = out s1"
    using f1 by (simp_all add: s2_def)
  have 3: "step s2 = Running s3"
    using f2 by (simp add: step_cmp abc_mem_at s3_def)
  have f3: "mem s3 = abc_mem" "pc s3 = 10" "get_c s3 = 1" "out s3 = out s2"
    using f2 by (simp_all add: s3_def)
  have 4: "step s3 = Running s4"
    using f3 by (simp add: step_bcc abc_mem_at s4_def)
  have f4: "mem s4 = abc_mem" "pc s4 = 12" "out s4 = out s3"
    using f3 by (simp_all add: s4_def)
  have 5: "step s4 = Exited 0 s5"
    using f4 by (simp add: step_brk abc_mem_at s5_def)
  have "steps (Suc (Suc (Suc (Suc (Suc 0))))) st = Exited 0 s5"
    by (simp add: 1 2 3 4 5)
  then have "steps 5 st = Exited 0 s5"
    by (simp add: numeral_eq_Suc)
  moreover have "out s5 = out st @ ''Z''" "pc s5 = 12" "mem s5 = abc_mem"
    using f4 f3 f2 f1 by (simp_all add: s5_def)
  ultimately show ?thesis
    by simp
qed


lemma letter_value: "k \<le> 25 \<Longrightarrow> unat (0x41 + of_nat k :: u8) = 65 + k"
  by (simp add: unat_word_ariths unat_of_nat)

text \<open>\<open>k\<close> turns of the loop, starting with 'A' in the accumulator.\<close>

lemma abc_loop:
  assumes "mem st = abc_mem" "pc st = 3" "get_c st = 0" "reg_a st = 0x41"
    and "k \<le> 25"
  shows "\<exists>st'. steps (4 * k) st = Running st' \<and> mem st' = abc_mem \<and> pc st' = 3
           \<and> get_c st' = 0 \<and> reg_a st' = 0x41 + of_nat k
           \<and> out st' = out st @ map (\<lambda>i. char_of (65 + i)) [0..<k]"
  using assms(5)
proof (induction k)
  case 0
  with assms show ?case by simp
next
  case (Suc k)
  then obtain t where t: "steps (4 * k) st = Running t" "mem t = abc_mem" "pc t = 3"
      "get_c t = 0" "reg_a t = 0x41 + of_nat k"
      "out t = out st @ map (\<lambda>i. char_of (65 + i)) [0..<k]"
    by auto
  from Suc.prems have v: "unat (0x41 + of_nat k :: u8) = 65 + k"
    by (simp add: letter_value)
  then have "(0x41 + of_nat k :: u8) \<le> 0x59"
    using Suc.prems by (simp add: word_le_nat_alt)
  from abc_loop_pass [OF t(2-5) this] obtain t' where t': "steps 4 t = Running t'"
      "mem t' = abc_mem" "pc t' = 3" "get_c t' = 0" "reg_a t' = 0x41 + of_nat k + 1"
      "out t' = out t @ [char_of (unat (0x41 + of_nat k :: u8))]"
    by blast
  have "steps (4 * k + 4) st = steps 4 t"
    using t(1) by (rule steps_add)
  then have "steps (4 * Suc k) st = Running t'"
    using t'(1) by (simp add: add.commute)
  moreover have "reg_a t' = 0x41 + of_nat (Suc k)"
    using t'(5) by simp
  moreover have "out t' = out st @ map (\<lambda>i. char_of (65 + i)) [0..<Suc k]"
    using t'(6) t(6) v by simp
  ultimately show ?case
    using t'(2-4) by blast
qed

lemma alphabet: "map (\<lambda>i. char_of (65 + i)) [0..<25] = ''ABCDEFGHIJKLMNOPQRSTUVWXY''"
  by code_simp

subsection \<open>Reads and writes of 16 bits\<close>

lemma r16_little_endian:
  assumes "addr \<noteq> 0xFFFF"
  shows "\<exists>w. r16 mm addr = Inr w \<and> unat w = unat (r8 mm addr) + 256 * unat (r8 mm (addr + 1))"
proof -
  have lo: "uint (mm addr) < 256" and hi: "uint (mm (addr + 1)) < 256"
    using uint_lt2p [of "mm addr"] uint_lt2p [of "mm (addr + 1)"] by simp_all
  have "uint (word_of_int (uint (mm addr) + push_bit 8 (uint (mm (addr + 1)))) :: u16)
          = (uint (mm addr) + 256 * uint (mm (addr + 1))) mod 65536"
    by (simp only: uint_word_of_int push_bit_eq_mult) (simp add: mult.commute)
  also have "\<dots> = uint (mm addr) + 256 * uint (mm (addr + 1))"
    using lo hi by simp
  finally have "unat (word_of_int (uint (mm addr) + push_bit 8 (uint (mm (addr + 1)))) :: u16)
          = unat (mm addr) + 256 * unat (mm (addr + 1))"
    by (simp only: unat_eq_nat_uint) (simp add: nat_add_distrib nat_mult_distrib)
  then show ?thesis
    unfolding r8_def r16_in_range [OF assms] by blast
qed

lemma char_B: "char_of (66 :: nat) = CHR ''B''"
  by code_simp

lemma top_image_at:
  "load_image top_image mm 0 = 0x90" "load_image top_image mm 1 = 0xFC"
  "load_image top_image mm 0xFFFE = 0x8D"
  by (simp_all add: load_image_def top_image_def nth_append)

lemma step_sta_top:
  assumes "mem st (pc st) = 0x8D" and "pc st = 0xFFFE"
  shows "step st = Fault (OutOfBounds 65536)"
  using assms by (simp add: step_def r8_def dispatch_def op_sta_def r16_def m_at_def)

lemma sta_step:
  assumes "r8 (mem st) (pc st) = 0x8D" and "pc st \<noteq> 0xFFFE"
  shows "\<exists>st' addr. step st = Running st'
           \<and> unat addr = unat (r8 (mem st) (pc st + 1)) + 256 * unat (r8 (mem st) (pc st + 2))
           \<and> reg_a st' = reg_a st \<and> reg_p st' = reg_p st \<and> pc st' = pc st + 3
           \<and> (if addr = 0xC000
               then mem st' = mem st \<and> out st' = out st @ [char_of (unat (reg_a st))]
               else mem st' = (mem st)(addr := reg_a st) \<and> out st' = out st)"
proof -
  have "pc st + 1 \<noteq> 0xFFFE + 1"
    using assms(2) by (simp only: add_right_cancel not_False_eq_True)
  then have "pc st + 1 \<noteq> 0xFFFF"
    by simp
  from r16_little_endian [OF this, of "mem st"] obtain addr where
    a: "r16 (mem st) (pc st + 1) = Inr addr"
      "unat addr = unat (r8 (mem st) (pc st + 1)) + 256 * unat (r8 (mem st) (pc st + 2))"
    by (auto simp: add.assoc)
  define st' where "st' = trace_regs ((w8 (trace_fetch st 0x8D) addr (reg_a st))\<lparr>pc := pc st + 3\<rparr>)"
  have "step st = Running st'"
    using assms(1) a(1) by (simp add: step_def dispatch_def op_sta_def st'_def)
  moreover have "reg_a st' = reg_a st" "reg_p st' = reg_p st" "pc st' = pc st + 3"
    by (simp_all add: st'_def w8_def putchar_def)
  moreover have "if addr = 0xC000
               then mem st' = mem st \<and> out st' = out st @ [char_of (unat (reg_a st))]
               else mem st' = (mem st)(addr := reg_a st) \<and> out st' = out st"
    by (simp add: st'_def w8_def putchar_def)
  ultimately show ?thesis
    using a(2) by blast
qed

lemma low_byte: "unat (ucast (val AND 0xFF :: u16) :: u8) = unat val mod 256"
proof -
  have m: "(0xFF :: u16) = mask 8"
    by (simp add: mask_eq_exp_minus_1)
  have "val AND mask 8 = take_bit 8 val"
    by (simp only: take_bit_eq_mask)
  then have "(ucast (val AND 0xFF) :: u8) = ucast val"
    unfolding m by (simp only:) (rule bit_word_eqI, simp add: bit_ucast_iff bit_take_bit_iff)
  then show ?thesis
    by (simp add: unsigned_ucast_eq take_bit_eq_mod)
qed

lemma high_byte: "unat (ucast (drop_bit 8 (val :: u16)) :: u8) = unat val div 256"
proof -
  have "unat val < 65536"
    using unsigned_less [of val, where ?'a = nat] by simp
  then have lt: "unat val div 256 < 256"
    by simp
  have "unat (drop_bit 8 val) = drop_bit 8 (unat val)"
    by (rule unat_drop_bit_eq)
  also have "\<dots> = unat val div 2 ^ 8"
    by (rule drop_bit_eq_div)
  also have "\<dots> = unat val div 256"
    by simp
  finally have "unat (drop_bit 8 val) = unat val div 256" .
  then have "unat (ucast (drop_bit 8 val) :: u8) = (unat val div 256) mod 256"
    by (simp only: unsigned_ucast_eq take_bit_eq_mod) simp
  with lt show ?thesis
    by simp
qed

lemma w16_in_range:
  assumes "addr \<noteq> 0xFFFF"
  shows "w16 st addr val
    = Inr (st\<lparr>mem := (mem st)(addr := ucast (val AND 0xFF), addr + 1 := ucast (drop_bit 8 val))\<rparr>)"
proof -
  have "uint addr \<noteq> uint (0xFFFF :: u16)"
    using assms by (simp only: word_uint_eq_iff not_False_eq_True)
  then have "uint addr \<noteq> 65535"
    by simp
  moreover have "uint addr < 65536"
    using uint_lt2p [of addr] by simp
  ultimately have lt: "uint addr + 1 < 65536" by simp
  then show ?thesis
    by (simp add: w16_def m_set_def)
qed

subsection \<open>Formatted numbers\<close>

lemma hex2_digits:
  "hex2 v = [''0123456789abcdef'' ! (unat v div 16), ''0123456789abcdef'' ! (unat v mod 16)]"
proof -
  have "unat v < 256"
    using unsigned_less [of v, where ?'a = nat] by simp
  then have "unat v div 16 < 16"
    by simp
  then show ?thesis
    by (simp add: hex2_def hexdigit_def)
qed

lemma hex4_digits:
  "hex4 w = [''0123456789abcdef'' ! (unat w div 4096),
             ''0123456789abcdef'' ! (unat w div 256 mod 16),
             ''0123456789abcdef'' ! (unat w div 16 mod 16),
             ''0123456789abcdef'' ! (unat w mod 16)]"
proof -
  have "unat w < 65536"
    using unsigned_less [of w, where ?'a = nat] by simp
  then have "unat w div 4096 < 16"
    by simp
  then show ?thesis
    by (simp add: hex4_def hexdigit_def)
qed

subsection \<open>The flags register\<close>

lemma w8_reg_p [simp]: "reg_p (w8 st addr v) = reg_p st"
  by (simp add: w8_def putchar_def)

lemma dispatch_flags_frame:
  assumes "dispatch opc st = Running st' \<or> dispatch opc st = Exited code st'"
    and "i \<noteq> CF" "i \<noteq> ZF" "i \<noteq> NF"
  shows "bit (reg_p st') i = bit (reg_p st) i"
proof -
  consider "opc = 0x00" | "opc = 0xEA" | "opc = 0x18" | "opc = 0xA9" | "opc = 0x8D"
    | "opc = 0x69" | "opc = 0xC9" | "opc = 0x90"
    | "opc \<notin> {0x00, 0xEA, 0x18, 0xA9, 0x8D, 0x69, 0xC9, 0x90}"
    by blast
  then show ?thesis
  proof cases
    case 1
    with assms show ?thesis by (auto simp: dispatch_def op_brk_def)
  next
    case 2
    with assms show ?thesis by (auto simp: dispatch_def op_nop_def)
  next
    case 3
    with assms show ?thesis by (auto simp: dispatch_def op_clc_def Let_def bit_clr_c)
  next
    case 4
    with assms show ?thesis by (auto simp: dispatch_def op_lda_def Let_def bit_set_zn)
  next
    case 5
    with assms show ?thesis
      by (auto simp: dispatch_def op_sta_def Let_def split: sum.splits)
  next
    case 6
    with assms show ?thesis by (auto simp: dispatch_def op_adc_def Let_def bit_set_zn)
  next
    case 7
    with assms show ?thesis
      by (auto simp: dispatch_def op_cmp_def Let_def bit_flag_simps split: if_splits)
  next
    case 8
    with assms show ?thesis
      by (auto simp: dispatch_def op_bcc_def Let_def split: if_splits)
  next
    case 9
    with assms show ?thesis by (auto simp: dispatch_def op_default_def)
  qed
qed

lemma step_flags_frame:
  assumes "step st = Running st' \<or> step st = Exited code st'"
    and "i \<noteq> CF" "i \<noteq> ZF" "i \<noteq> NF"
  shows "bit (reg_p st') i = bit (reg_p st) i"
proof (cases "dispatch (r8 (mem st) (pc st)) (trace_fetch st (r8 (mem st) (pc st)))")
  case (Running t)
  with assms(1) have "st' = trace_regs t"
    by (simp add: step_def)
  moreover from Running assms(2-) have "bit (reg_p t) i = bit (reg_p st) i"
    using dispatch_flags_frame [of "r8 (mem st) (pc st)" "trace_fetch st (r8 (mem st) (pc st))" t 0 i]
    by simp
  ultimately show ?thesis by simp
next
  case (Exited c t)
  with assms(1) have "st' = t"
    by (simp add: step_def)
  moreover from Exited assms(2-) have "bit (reg_p t) i = bit (reg_p st) i"
    using dispatch_flags_frame [of "r8 (mem st) (pc st)" "trace_fetch st (r8 (mem st) (pc st))" t c i]
    by simp
  ultimately show ?thesis by simp
next
  case (Fault f)
  with assms(1) show ?thesis
    by (simp add: step_def)
qed

lemma steps_flags_frame:
  assumes "steps n st = Running st' \<or> steps n st = Exited code st'"
    and "i \<noteq> CF" "i \<noteq> ZF" "i \<noteq> NF"
  shows "bit (reg_p st') i = bit (reg_p st) i"
  using assms
proof (induction n arbitrary: st)
  case 0
  then show ?case by simp
next
  case (Suc n)
  show ?case
  proof (cases "step st")
    case (Running t)
    with Suc.prems(1) have "steps n t = Running st' \<or> steps n t = Exited code st'"
      by simp
    then have "bit (reg_p st') i = bit (reg_p t) i"
      using Suc.IH Suc.prems(2-) by blast
    moreover have "bit (reg_p t) i = bit (reg_p st) i"
      using Running Suc.prems(2-) step_flags_frame [of st t 0 i] by simp
    ultimately show ?thesis by simp
  next
    case (Exited c t)
    with Suc.prems(1) have "st' = t"
      by simp
    then show ?thesis
      using Exited Suc.prems(2-) step_flags_frame [of st t c i] by simp
  next
    case (Fault f)
    with Suc.prems(1) show ?thesis by simp
  qed
qed

section \<open>Memory access\<close>

text \<open>
  C2. The 16-bit read at the top of memory: \<open>r16\<close> at address 0xFFFF computes the
  index of the high byte as 0xFFFF + 1 = 65536 in int and reads \<open>m[65536]\<close>, outside the
  array of 65536 bytes; it does not take the high byte from address 0. (At every other
  address the result is the low byte plus 256 times the byte at the next address:
  lemma \<open>r16_little_endian\<close>.)
\<close>

theorem r16_top_of_memory:
  "r16 mm 0xFFFF = Inl (OutOfBounds 65536)"
  by (simp add: r16_def m_at_def)

text \<open>
  C3. The 16-bit write. For every address other than 0xFFFF and every 16-bit word,
  \<open>w16\<close> stores the low byte of the word (the word mod 256) at \<open>addr\<close> and the high
  byte (the word div 256) at \<open>addr + 1\<close>, both directly in the array: it has no check
  for the output device and prints nothing. It does exactly what the byte write \<open>w8\<close>
  at \<open>addr\<close> followed by the byte write \<open>w8\<close> at \<open>addr + 1\<close> does whenever neither
  \<open>addr\<close> nor \<open>addr + 1\<close> is 0xC000; that holds at 0xFFFC, the only address \<open>main\<close>
  passes to it.
\<close>

theorem w16_direct_store:
  "(addr \<noteq> 0xFFFF \<longrightarrow>
      (\<exists>lo hi. unat lo = unat val mod 256 \<and> unat hi = unat val div 256
         \<and> w16 st addr val = Inr (st\<lparr>mem := (mem st)(addr := lo, addr + 1 := hi)\<rparr>)))
   \<and> (addr \<noteq> 0xFFFF \<and> addr \<noteq> 0xC000 \<and> addr + 1 \<noteq> 0xC000 \<longrightarrow>
        w16 st addr val = Inr (w16_spec st addr val))
   \<and> w16 st 0xFFFC val = Inr (w16_spec st 0xFFFC val)"
proof (intro conjI)
  show "addr \<noteq> 0xFFFF \<longrightarrow>
      (\<exists>lo hi. unat lo = unat val mod 256 \<and> unat hi = unat val div 256
         \<and> w16 st addr val = Inr (st\<lparr>mem := (mem st)(addr := lo, addr + 1 := hi)\<rparr>))"
    using low_byte [of val] high_byte [of val] w16_in_range [of addr st val] by blast
  show "addr \<noteq> 0xFFFF \<and> addr \<noteq> 0xC000 \<and> addr + 1 \<noteq> 0xC000 \<longrightarrow>
        w16 st addr val = Inr (w16_spec st addr val)"
    by (simp add: w16_in_range w16_spec_def w8_def)
  show "w16 st 0xFFFC val = Inr (w16_spec st 0xFFFC val)"
    by (simp add: w16_in_range w16_spec_def w8_def)
qed

theorem w16_direct_store_witness:
  "((0xFFFC :: u16) \<noteq> 0xFFFF \<and> (0xFFFC :: u16) \<noteq> 0xC000 \<and> (0xFFFC :: u16) + 1 \<noteq> 0xC000)
   \<and> (\<exists>lo hi. unat lo = 0x34 \<and> unat hi = 0x12
         \<and> w16 globals0 0xFFFC 0x1234
             = Inr (globals0\<lparr>mem := (mem globals0)(0xFFFC := lo, 0xFFFD := hi)\<rparr>))
   \<and> w16 globals0 0xFFFC 0x1234 = Inr (w16_spec globals0 0xFFFC 0x1234)"
proof -
  have h: "(0xFFFC :: u16) \<noteq> 0xFFFF \<and> (0xFFFC :: u16) \<noteq> 0xC000 \<and> (0xFFFC :: u16) + 1 \<noteq> 0xC000"
    by simp
  have v: "unat (0x1234 :: u16) mod 256 = 0x34" "unat (0x1234 :: u16) div 256 = 0x12"
    by simp_all
  have s: "(0xFFFC :: u16) + 1 = 0xFFFD"
    by simp
  from w16_direct_store [of "0xFFFC" "0x1234" globals0] h show ?thesis
    unfolding v s by blast
qed

text \<open>
  At 0xC000 the two differ: \<open>w16\<close> with the word 0x4142 stores 0x42 at 0xC000 and 0x41
  at 0xC001 and prints nothing, whereas the two byte writes through \<open>w8\<close> print the
  character 'B', leave 0xC000 as it was and store 0x41 at 0xC001.
\<close>

theorem w16_device_counterexample:
  "w16 globals0 0xC000 0x4142
     = Inr (globals0\<lparr>mem := (mem globals0)(0xC000 := 0x42, 0xC001 := 0x41)\<rparr>)
   \<and> w16_spec globals0 0xC000 0x4142
     = globals0\<lparr>mem := (mem globals0)(0xC001 := 0x41), out := ''B''\<rparr>
   \<and> w16 globals0 0xC000 0x4142 \<noteq> Inr (w16_spec globals0 0xC000 0x4142)"
proof -
  have a: "w16 globals0 0xC000 0x4142
     = Inr (globals0\<lparr>mem := (mem globals0)(0xC000 := 0x42, 0xC001 := 0x41)\<rparr>)"
    by (simp add: w16_def m_set_def globals0_def)
  have b: "w16_spec globals0 0xC000 0x4142
     = globals0\<lparr>mem := (mem globals0)(0xC001 := 0x41), out := ''B''\<rparr>"
    by (simp add: w16_spec_def w8_def putchar_def globals0_def char_B)
  have "out (globals0\<lparr>mem := (mem globals0)(0xC000 := 0x42, 0xC001 := 0x41)\<rparr>)
      \<noteq> out (globals0\<lparr>mem := (mem globals0)(0xC001 := 0x41), out := ''B''\<rparr>)"
    by (simp add: globals0_def)
  then have "globals0\<lparr>mem := (mem globals0)(0xC000 := 0x42, 0xC001 := 0x41)\<rparr>
      \<noteq> globals0\<lparr>mem := (mem globals0)(0xC001 := 0x41), out := ''B''\<rparr>"
    by metis
  with a b show ?thesis
    by simp
qed

section \<open>The instructions\<close>

text \<open>
  C8. LDA #v (opcode 0xA9): for every 8-bit value \<open>v\<close> the accumulator becomes \<open>v\<close>,
  the Zero bit is set iff \<open>v = 0\<close>, the Negative bit is set iff bit 7 of \<open>v\<close> is set,
  and \<open>pc\<close> advances by 2 (in 16-bit arithmetic).
\<close>

theorem lda_step:
  assumes "r8 (mem st) (pc st) = 0xA9" and "r8 (mem st) (pc st + 1) = v"
  shows "\<exists>st'. step st = Running st' \<and> reg_a st' = v
           \<and> (bit (reg_p st') ZF \<longleftrightarrow> v = 0)
           \<and> (bit (reg_p st') NF \<longleftrightarrow> bit v 7)
           \<and> pc st' = pc st + 2"
  using assms
  by (simp add: step_def dispatch_def op_lda_def Let_def bit_set_zn ZF_def NF_def)

theorem lda_step_witness:
  "r8 (mem (image_state [0xA9, 0x80])) (pc (image_state [0xA9, 0x80])) = 0xA9
   \<and> r8 (mem (image_state [0xA9, 0x80])) (pc (image_state [0xA9, 0x80]) + 1) = 0x80
   \<and> (\<exists>st'. step (image_state [0xA9, 0x80]) = Running st' \<and> reg_a st' = 0x80
           \<and> (bit (reg_p st') ZF \<longleftrightarrow> (0x80 :: u8) = 0)
           \<and> (bit (reg_p st') NF \<longleftrightarrow> bit (0x80 :: u8) 7)
           \<and> pc st' = pc (image_state [0xA9, 0x80]) + 2)"
proof -
  have h: "r8 (mem (image_state [0xA9, 0x80])) (pc (image_state [0xA9, 0x80])) = 0xA9"
    "r8 (mem (image_state [0xA9, 0x80])) (pc (image_state [0xA9, 0x80]) + 1) = 0x80"
    by (simp_all add: image_state_def globals0_def load_image_def r8_def)
  from h lda_step [OF h] show ?thesis
    by blast
qed

text \<open>
  C7. STA (opcode 0x8D) at the top of memory: with the opcode at \<open>pc = 0xFFFE\<close> the
  operand is fetched by \<open>r16\<close> at 0xFFFF, which reads \<open>m[65536]\<close>. The run of
  \<open>top_image\<close> gets there in its second pass and leaves the array. (At every other
  \<open>pc\<close> the instruction stores the accumulator through \<open>w8\<close> at its little-endian
  operand address, keeps accumulator and flags, adds 3 to \<open>pc\<close>, and for the operand
  0xC000 leaves the memory as it was and appends one character to standard output:
  lemma \<open>sta_step\<close>.)
\<close>

theorem sta_top_of_memory:
  "emu_main (Inr top_image) = Some (Inl (OutOfBounds 65536))"
proof -
  define s0 where
    "s0 = globals0\<lparr>mem := (load_image top_image (\<lambda>_. 0))(0xFFFC := 0, 0xFFFD := 0)\<rparr>"
  define s1 where "s1 = trace_regs ((trace_fetch s0 0x90)\<lparr>pc := 0xFFFE\<rparr>)"
  have b: "boot (Inr top_image) = Running s0"
    by (simp add: boot_image s0_def)
  have f0: "pc s0 = 0" "mem s0 0 = 0x90" "mem s0 1 = 0xFC" "mem s0 0xFFFE = 0x8D" "get_c s0 = 0"
    by (simp_all add: s0_def globals0_def top_image_at get_c_def)
  have m2: "(- 2 :: u16) = 0xFFFE"
    by simp
  have 1: "step s0 = Running s1"
    using f0 by (simp add: step_bcc s1_def m2)
  have f1: "pc s1 = 0xFFFE" "mem s1 (pc s1) = 0x8D"
    using f0 by (simp_all add: s1_def)
  have 2: "step s1 = Fault (OutOfBounds 65536)"
    using f1 by (simp add: step_sta_top)
  show ?thesis
    using b 1 2 by (simp add: emu_main_def run_next run_fault)
qed

text \<open>
  C4. ADC #v (opcode 0x69): for every state and every 8-bit operand \<open>v\<close> the
  accumulator becomes (a + v + carry bit) mod 256, Zero is set iff the new accumulator
  is 0, Negative iff its bit 7 is set, the Carry bit keeps its value and \<open>pc\<close>
  advances by 2. In particular the three instructions LDA #0xFF; CLC; ADC #0x01 leave
  the accumulator 0 with Zero set and Negative clear.
\<close>

theorem adc_step:
  "(r8 (mem st) (pc st) = 0x69 \<and> r8 (mem st) (pc st + 1) = v \<longrightarrow>
      (\<exists>st'. step st = Running st'
         \<and> unat (reg_a st')
             = (unat (reg_a st) + unat v + (if bit (reg_p st) CF then 1 else 0)) mod 256
         \<and> (bit (reg_p st') ZF \<longleftrightarrow> reg_a st' = 0)
         \<and> (bit (reg_p st') NF \<longleftrightarrow> bit (reg_a st') 7)
         \<and> (bit (reg_p st') CF \<longleftrightarrow> bit (reg_p st) CF)
         \<and> pc st' = pc st + 2))
   \<and> (r8 (mem s0) (pc s0) = 0xA9 \<and> r8 (mem s0) (pc s0 + 1) = 0xFF
        \<and> r8 (mem s0) (pc s0 + 2) = 0x18
        \<and> r8 (mem s0) (pc s0 + 3) = 0x69 \<and> r8 (mem s0) (pc s0 + 4) = 0x01 \<longrightarrow>
      (\<exists>s3. steps 3 s0 = Running s3 \<and> reg_a s3 = 0
         \<and> bit (reg_p s3) ZF \<and> \<not> bit (reg_p s3) NF))"
proof (intro conjI impI)
  assume h: "r8 (mem st) (pc st) = 0x69 \<and> r8 (mem st) (pc st + 1) = v"
  define a' :: u8 where "a' = word_of_int (uint (reg_a st) + uint v + get_c st)"
  define st' where
    "st' = trace_regs ((set_zn ((trace_fetch st 0x69)\<lparr>reg_a := a'\<rparr>))\<lparr>pc := pc st + 2\<rparr>)"
  have run: "step st = Running st'"
    using h by (simp add: step_def dispatch_def op_adc_def Let_def st'_def a'_def)
  have val: "unat a' = (unat (reg_a st) + unat v + (if bit (reg_p st) CF then 1 else 0)) mod 256"
    unfolding a'_def get_c_bit by (rule adc_value)
  have *: "reg_a st' = a'" "pc st' = pc st + 2"
    "bit (reg_p st') ZF \<longleftrightarrow> a' = 0" "bit (reg_p st') NF \<longleftrightarrow> bit a' 7"
    "bit (reg_p st') CF \<longleftrightarrow> bit (reg_p st) CF"
    by (simp_all add: st'_def bit_set_zn ZF_def NF_def CF_def)
  show "\<exists>st'. step st = Running st'
         \<and> unat (reg_a st')
             = (unat (reg_a st) + unat v + (if bit (reg_p st) CF then 1 else 0)) mod 256
         \<and> (bit (reg_p st') ZF \<longleftrightarrow> reg_a st' = 0)
         \<and> (bit (reg_p st') NF \<longleftrightarrow> bit (reg_a st') 7)
         \<and> (bit (reg_p st') CF \<longleftrightarrow> bit (reg_p st) CF)
         \<and> pc st' = pc st + 2"
    by (rule exI [of _ st']) (simp only: * val run)
next
  assume h: "r8 (mem s0) (pc s0) = 0xA9 \<and> r8 (mem s0) (pc s0 + 1) = 0xFF
        \<and> r8 (mem s0) (pc s0 + 2) = 0x18
        \<and> r8 (mem s0) (pc s0 + 3) = 0x69 \<and> r8 (mem s0) (pc s0 + 4) = 0x01"
  define s1 where "s1 = trace_regs
       ((set_zn ((trace_fetch s0 0xA9)\<lparr>reg_a := 0xFF\<rparr>))\<lparr>pc := pc s0 + 2\<rparr>)"
  define s2 where "s2 = trace_regs ((clr_c (trace_fetch s1 0x18))\<lparr>pc := pc s1 + 1\<rparr>)"
  define s3 where "s3 = trace_regs
       ((set_zn ((trace_fetch s2 0x69)\<lparr>reg_a := 0\<rparr>))\<lparr>pc := pc s2 + 2\<rparr>)"
  have m: "mem s1 = mem s0" "mem s2 = mem s0" and p: "pc s1 = pc s0 + 2" "pc s2 = pc s0 + 3"
    by (simp_all add: s1_def s2_def)
  have 1: "step s0 = Running s1"
    using h by (simp add: step_lda r8_def s1_def)
  have 2: "step s1 = Running s2"
    using h by (simp add: step_clc r8_def m p s2_def)
  have c: "get_c s2 = 0" "reg_a s2 = 0xFF"
    by (simp_all add: s2_def s1_def get_c_bit bit_clr_c)
  have o: "mem s2 (pc s2) = 0x69" "mem s2 (pc s2 + 1) = 1"
    using h by (simp_all add: r8_def m p ac_simps)
  have w: "(256 :: u8) = 0"
    by simp
  have 3: "step s2 = Running s3"
    by (simp add: step_adc o c s3_def w)
  have "steps (Suc (Suc (Suc 0))) s0 = Running s3"
    by (simp add: 1 2 3)
  moreover have "reg_a s3 = 0 \<and> bit (reg_p s3) ZF \<and> \<not> bit (reg_p s3) NF"
    by (simp add: s3_def bit_set_zn ZF_def NF_def)
  ultimately show "\<exists>s3. steps 3 s0 = Running s3 \<and> reg_a s3 = 0
         \<and> bit (reg_p s3) ZF \<and> \<not> bit (reg_p s3) NF"
    by (simp add: numeral_3_eq_3)
qed

theorem adc_step_witness:
  "(r8 (mem adc_state) (pc adc_state) = 0x69 \<and> r8 (mem adc_state) (pc adc_state + 1) = 5)
   \<and> (\<exists>st'. step adc_state = Running st'
         \<and> unat (reg_a st') = 4
         \<and> (bit (reg_p st') ZF \<longleftrightarrow> reg_a st' = 0)
         \<and> (bit (reg_p st') NF \<longleftrightarrow> bit (reg_a st') 7)
         \<and> bit (reg_p st') CF
         \<and> pc st' = 2)
   \<and> (r8 (mem wrap_state) (pc wrap_state) = 0xA9 \<and> r8 (mem wrap_state) (pc wrap_state + 1) = 0xFF
        \<and> r8 (mem wrap_state) (pc wrap_state + 2) = 0x18
        \<and> r8 (mem wrap_state) (pc wrap_state + 3) = 0x69
        \<and> r8 (mem wrap_state) (pc wrap_state + 4) = 0x01)
   \<and> (\<exists>s3. steps 3 wrap_state = Running s3 \<and> reg_a s3 = 0
         \<and> bit (reg_p s3) ZF \<and> \<not> bit (reg_p s3) NF)"
proof -
  have h1: "r8 (mem adc_state) (pc adc_state) = 0x69 \<and> r8 (mem adc_state) (pc adc_state + 1) = 5"
    by (simp add: adc_state_def image_state_def globals0_def load_image_def r8_def)
  have h2: "r8 (mem wrap_state) (pc wrap_state) = 0xA9
        \<and> r8 (mem wrap_state) (pc wrap_state + 1) = 0xFF
        \<and> r8 (mem wrap_state) (pc wrap_state + 2) = 0x18
        \<and> r8 (mem wrap_state) (pc wrap_state + 3) = 0x69
        \<and> r8 (mem wrap_state) (pc wrap_state + 4) = 0x01"
    by (simp add: wrap_state_def image_state_def globals0_def load_image_def r8_def)
  have v: "reg_a adc_state = 0xFE" "bit (reg_p adc_state) CF" "pc adc_state = 0"
    by (simp_all add: adc_state_def image_state_def globals0_def CF_def)
  from adc_step [of adc_state 5 wrap_state] h1 h2 show ?thesis
    by (simp add: v)
qed

text \<open>
  C5. CMP #v (opcode 0xC9): the accumulator keeps its value; if a = v then Zero and Carry
  are set, if a < v both are cleared, if a > v Zero is cleared and Carry is set; the
  Negative bit keeps its value; \<open>pc\<close> advances by 2.
\<close>

theorem cmp_step:
  assumes "r8 (mem st) (pc st) = 0xC9" and "r8 (mem st) (pc st + 1) = v"
  shows "\<exists>st'. step st = Running st' \<and> reg_a st' = reg_a st
           \<and> (reg_a st = v \<longrightarrow> bit (reg_p st') ZF \<and> bit (reg_p st') CF)
           \<and> (reg_a st < v \<longrightarrow> \<not> bit (reg_p st') ZF \<and> \<not> bit (reg_p st') CF)
           \<and> (reg_a st > v \<longrightarrow> \<not> bit (reg_p st') ZF \<and> bit (reg_p st') CF)
           \<and> (bit (reg_p st') NF \<longleftrightarrow> bit (reg_p st) NF)
           \<and> pc st' = pc st + 2"
  using assms
  by (auto simp: step_def dispatch_def op_cmp_def Let_def bit_flag_simps ZF_def NF_def CF_def)

theorem cmp_step_witness:
  "r8 (mem cmp_state) (pc cmp_state) = 0xC9 \<and> r8 (mem cmp_state) (pc cmp_state + 1) = 0x5B
   \<and> (\<exists>st'. step cmp_state = Running st' \<and> reg_a st' = 0x42
           \<and> \<not> bit (reg_p st') ZF \<and> \<not> bit (reg_p st') CF
           \<and> \<not> bit (reg_p st') NF
           \<and> pc st' = 2)"
proof -
  have h: "r8 (mem cmp_state) (pc cmp_state) = 0xC9"
    "r8 (mem cmp_state) (pc cmp_state + 1) = 0x5B"
    by (simp_all add: cmp_state_def image_state_def globals0_def load_image_def r8_def)
  have v: "reg_a cmp_state = 0x42" "reg_p cmp_state = 0" "pc cmp_state = 0"
    by (simp_all add: cmp_state_def image_state_def globals0_def)
  from cmp_step [OF h] h show ?thesis
    by (simp add: v)
qed

text \<open>
  C6. BCC (opcode 0x90) with operand byte \<open>b\<close>: with Carry set the new \<open>pc\<close> is pc + 2;
  with Carry clear it is pc + 2 + signed(b), where signed(b) is \<open>b\<close> read as a
  two's-complement 8-bit integer between -128 and 127. The program counter is a 16-bit
  variable, so the sum is taken modulo 65536.
\<close>

theorem bcc_step:
  assumes "r8 (mem st) (pc st) = 0x90" and "r8 (mem st) (pc st + 1) = b"
  shows "\<exists>st'. step st = Running st'
           \<and> (bit (reg_p st) CF \<longrightarrow> uint (pc st') = (uint (pc st) + 2) mod 65536)
           \<and> (\<not> bit (reg_p st) CF \<longrightarrow>
                 uint (pc st') = (uint (pc st) + 2 + sint b) mod 65536)
           \<and> - 128 \<le> sint b \<and> sint b \<le> 127"
proof -
  define t :: u16 where "t = word_of_int (uint (pc st) + 2 + sint b)"
  have rng: "- 128 \<le> sint b \<and> sint b \<le> 127"
    using sint_ge [of b] sint_lt [of b] by simp
  have t: "uint t = (uint (pc st) + 2 + sint b) mod 65536"
    unfolding t_def by (rule bcc_value)
  have n: "uint (pc st + 2) = (uint (pc st) + 2) mod 65536"
    by (simp add: uint_word_ariths)
  have "step st = Running (trace_regs ((trace_fetch st 0x90)
           \<lparr>pc := if bit (reg_p st) CF then pc st + 2 else t\<rparr>))"
    using assms by (simp add: step_def dispatch_def op_bcc_def Let_def get_c_bit t_def)
  with rng t n show ?thesis by simp
qed

theorem bcc_step_witness:
  "r8 (mem bcc_state) (pc bcc_state) = 0x90 \<and> r8 (mem bcc_state) (pc bcc_state + 1) = 0xF7
   \<and> \<not> bit (reg_p bcc_state) CF \<and> sint (0xF7 :: u8) = - 9
   \<and> (\<exists>st'. step bcc_state = Running st' \<and> uint (pc st') = 3)"
proof -
  have h: "r8 (mem bcc_state) (pc bcc_state) = 0x90"
    "r8 (mem bcc_state) (pc bcc_state + 1) = 0xF7"
    by (simp_all add: bcc_state_def abc_image_def image_state_def globals0_def load_image_def
        r8_def)
  have v: "reg_p bcc_state = 0" "pc bcc_state = 10" "sint (0xF7 :: u8) = - 9"
    by (simp_all add: bcc_state_def image_state_def globals0_def)
  from bcc_step [OF h] h show ?thesis
    by (simp add: v)
qed

text \<open>
  C9. An opcode outside the supported set: the pass prints \<open>Unknown opcode\<close>, the
  opcode as two lower-case hexadecimal digits (its value div 16 and mod 16),
  \<open>at address\<close>, the \<open>pc\<close> of the fetch as four hexadecimal digits (most significant
  first) and a newline to standard output and exits with code 1; the registers, the
  flags, \<open>pc\<close> and the memory are as before. In particular the image that is the single
  byte 0xFF ends with exit code 1 and the output \<open>Unknown opcode ff at address 0000\<close>.
\<close>

theorem unknown_opcode_step:
  "(r8 (mem st) (pc st) = opc
      \<and> opc \<notin> {0x00, 0xEA, 0x18, 0xA9, 0x8D, 0x69, 0xC9, 0x90} \<longrightarrow>
      (\<exists>st'. step st = Exited 1 st'
         \<and> out st' = out st @ ''Unknown opcode ''
              @ [''0123456789abcdef'' ! (unat opc div 16),
                 ''0123456789abcdef'' ! (unat opc mod 16)]
              @ '' at address ''
              @ [''0123456789abcdef'' ! (unat (pc st) div 4096),
                 ''0123456789abcdef'' ! (unat (pc st) div 256 mod 16),
                 ''0123456789abcdef'' ! (unat (pc st) div 16 mod 16),
                 ''0123456789abcdef'' ! (unat (pc st) mod 16)]
              @ [CHR 0x0A]
         \<and> pc st' = pc st \<and> reg_a st' = reg_a st \<and> reg_x st' = reg_x st
         \<and> reg_y st' = reg_y st \<and> reg_s st' = reg_s st \<and> reg_p st' = reg_p st
         \<and> mem st' = mem st))
   \<and> (\<exists>st'. emu_main (Inr [0xFF]) = Some (Inr (1, st'))
         \<and> out st' = ''Unknown opcode ff at address 0000'' @ [CHR 0x0A]
         \<and> pc st' = 0)"
proof (rule conjI)
  show "r8 (mem st) (pc st) = opc
      \<and> opc \<notin> {0x00, 0xEA, 0x18, 0xA9, 0x8D, 0x69, 0xC9, 0x90} \<longrightarrow>
      (\<exists>st'. step st = Exited 1 st'
         \<and> out st' = out st @ ''Unknown opcode ''
              @ [''0123456789abcdef'' ! (unat opc div 16),
                 ''0123456789abcdef'' ! (unat opc mod 16)]
              @ '' at address ''
              @ [''0123456789abcdef'' ! (unat (pc st) div 4096),
                 ''0123456789abcdef'' ! (unat (pc st) div 256 mod 16),
                 ''0123456789abcdef'' ! (unat (pc st) div 16 mod 16),
                 ''0123456789abcdef'' ! (unat (pc st) mod 16)]
              @ [CHR 0x0A]
         \<and> pc st' = pc st \<and> reg_a st' = reg_a st \<and> reg_x st' = reg_x st
         \<and> reg_y st' = reg_y st \<and> reg_s st' = reg_s st \<and> reg_p st' = reg_p st
         \<and> mem st' = mem st)"
    unfolding hex2_digits [symmetric] hex4_digits [symmetric]
    by (simp add: step_def dispatch_def op_default_def Let_def unknown_opcode_msg_def
        trace_fetch_def)
next
  define s0 where
    "s0 = globals0\<lparr>mem := (load_image [0xFF] (\<lambda>_. 0))(0xFFFC := 0, 0xFFFD := 0)\<rparr>"
  have "r8 (mem s0) (pc s0) = 0xFF" "pc s0 = 0" "out s0 = []"
    by (simp_all add: s0_def r8_def globals0_def load_image_def)
  then have "\<exists>st'. step s0 = Exited 1 st' \<and> out st' = unknown_opcode_msg 0xFF 0 \<and> pc st' = 0"
    by (simp add: step_def dispatch_def op_default_def)
  then obtain st' where "step s0 = Exited 1 st'" "out st' = unknown_opcode_msg 0xFF 0"
      "pc st' = 0"
    by blast
  then have "run s0 = Some (Inr (1, st'))"
      "out st' = ''Unknown opcode ff at address 0000'' @ [CHR 0x0A]" "pc st' = 0"
    by (simp_all add: run_exit unknown_opcode_msg_def hex2_def hex4_def hexdigit_def)
  then show "\<exists>st'. emu_main (Inr [0xFF]) = Some (Inr (1, st'))
         \<and> out st' = ''Unknown opcode ff at address 0000'' @ [CHR 0x0A]
         \<and> pc st' = 0"
    by (simp add: emu_main_def boot_image s0_def)
qed

theorem unknown_opcode_step_witness:
  "(r8 (mem odd_state) (pc odd_state) = 0x3C
      \<and> (0x3C :: u8) \<notin> {0x00, 0xEA, 0x18, 0xA9, 0x8D, 0x69, 0xC9, 0x90})
   \<and> (\<exists>st'. step odd_state = Exited 1 st'
         \<and> out st' = ''Unknown opcode 3c at address 12ab'' @ [CHR 0x0A]
         \<and> pc st' = 0x12AB \<and> reg_a st' = 0 \<and> reg_p st' = 0 \<and> mem st' = mem odd_state)"
proof -
  have h: "r8 (mem odd_state) (pc odd_state) = 0x3C
      \<and> (0x3C :: u8) \<notin> {0x00, 0xEA, 0x18, 0xA9, 0x8D, 0x69, 0xC9, 0x90}"
    by (simp add: odd_state_def r8_def)
  have v: "pc odd_state = 0x12AB" "reg_a odd_state = 0" "reg_p odd_state = 0" "out odd_state = []"
    by (simp_all add: odd_state_def image_state_def globals0_def)
  from unknown_opcode_step [of odd_state "0x3C"] h show ?thesis
    by (auto simp: v)
qed

section \<open>Whole runs\<close>

text \<open>
  C1. The example program at address 0 of an otherwise zero memory, started through
  \<open>main\<close> (so \<open>pc\<close> starts at 0): the run ends, with exit code 0, at the BRK
  opcode at address 12, and standard output is then exactly the 26 characters 'A' to 'Z'
  in order.
\<close>

theorem abc_program:
  "\<exists>st. emu_main (Inr abc_image) = Some (Inr (0, st))
      \<and> out st = ''ABCDEFGHIJKLMNOPQRSTUVWXYZ'' \<and> length (out st) = 26
      \<and> pc st = 12 \<and> r8 (mem st) (pc st) = 0x00"
proof -
  define s0 where "s0 = globals0\<lparr>mem := abc_mem\<rparr>"
  define s1 where "s1 = trace_regs ((clr_c (trace_fetch s0 0x18))\<lparr>pc := 1\<rparr>)"
  define s2 where "s2 = trace_regs ((set_zn ((trace_fetch s1 0xA9)\<lparr>reg_a := 0x41\<rparr>))\<lparr>pc := 3\<rparr>)"
  have b: "boot (Inr abc_image) = Running s0"
    by (simp add: boot_image s0_def abc_mem_def)
  have f0: "mem s0 = abc_mem" "pc s0 = 0" "out s0 = []"
    by (simp_all add: s0_def globals0_def)
  have 1: "step s0 = Running s1"
    using f0 by (simp add: step_clc abc_mem_at s1_def)
  have f1: "mem s1 = abc_mem" "pc s1 = 1" "get_c s1 = 0" "out s1 = []"
    using f0 by (simp_all add: s1_def)
  have 2: "step s1 = Running s2"
    using f1 by (simp add: step_lda abc_mem_at s2_def)
  have f2: "mem s2 = abc_mem" "pc s2 = 3" "get_c s2 = 0" "reg_a s2 = 0x41" "out s2 = []"
    using f1 by (simp_all add: s2_def)
  from abc_loop [OF f2(1-4), of 25] obtain s3 where s3: "steps 100 s2 = Running s3"
      "mem s3 = abc_mem" "pc s3 = 3" "get_c s3 = 0" "reg_a s3 = 0x5A"
      "out s3 = ''ABCDEFGHIJKLMNOPQRSTUVWXY''"
    using f2(5) alphabet by auto
  from abc_last_pass [OF s3(2-5)] obtain s4 where s4: "steps 5 s3 = Exited 0 s4"
      "out s4 = ''ABCDEFGHIJKLMNOPQRSTUVWXYZ''" "pc s4 = 12" "mem s4 = abc_mem"
    using s3(6) by auto
  have "steps (100 + 5) s2 = steps 5 s3"
    using s3(1) by (rule steps_add)
  then have "run s2 = Some (Inr (0, s4))"
    using s4(1) by (simp add: run_steps)
  then have "run s0 = Some (Inr (0, s4))"
    using 1 2 by (simp add: run_next)
  with b s4(2-4) show ?thesis
    by (simp add: emu_main_def r8_def abc_mem_at)
qed

text \<open>
  C10. In every state that the loop reaches from the initial state of \<open>main\<close> (where
  the flags register is 0), and in the state at exit, the bits InterruptDisable (2),
  Decimal (3), Break (4), Unused (5) and Overflow (6) of the flags register are 0. No
  pass of the loop changes a bit of the flags register other than Carry (0), Zero (1)
  and Negative (7).
\<close>

theorem flags_invariant:
  "(boot img = Running s0 \<and> (steps n s0 = Running st \<or> steps n s0 = Exited code st) \<longrightarrow>
      \<not> bit (reg_p st) IF \<and> \<not> bit (reg_p st) DF \<and> \<not> bit (reg_p st) BF
      \<and> \<not> bit (reg_p st) XX \<and> \<not> bit (reg_p st) VF)
   \<and> ((step st1 = Running st2 \<or> step st1 = Exited code' st2) \<and> i \<notin> {CF, ZF, NF} \<longrightarrow>
      bit (reg_p st2) i = bit (reg_p st1) i)"
proof (rule conjI; rule impI)
  assume h: "boot img = Running s0 \<and> (steps n s0 = Running st \<or> steps n s0 = Exited code st)"
  then obtain bytes where "img = Inr bytes"
    by (cases img) (auto simp: boot_def)
  with h have "reg_p s0 = 0"
    by (auto simp: boot_image globals0_def)
  moreover from h have "\<And>i. i \<noteq> CF \<Longrightarrow> i \<noteq> ZF \<Longrightarrow> i \<noteq> NF \<Longrightarrow> bit (reg_p st) i = bit (reg_p s0) i"
    using steps_flags_frame by blast
  ultimately show "\<not> bit (reg_p st) IF \<and> \<not> bit (reg_p st) DF \<and> \<not> bit (reg_p st) BF
      \<and> \<not> bit (reg_p st) XX \<and> \<not> bit (reg_p st) VF"
    by (simp add: CF_def ZF_def IF_def DF_def BF_def XX_def VF_def NF_def)
next
  assume "(step st1 = Running st2 \<or> step st1 = Exited code' st2) \<and> i \<notin> {CF, ZF, NF}"
  then show "bit (reg_p st2) i = bit (reg_p st1) i"
    using step_flags_frame [of st1 st2 code' i] by simp
qed

theorem flags_invariant_witness:
  "(boot (Inr abc_image) = Running abc_start
     \<and> (steps 2 abc_start = Running abc_pass2 \<or> steps 2 abc_start = Exited 0 abc_pass2))
   \<and> (\<not> bit (reg_p abc_pass2) IF \<and> \<not> bit (reg_p abc_pass2) DF \<and> \<not> bit (reg_p abc_pass2) BF
      \<and> \<not> bit (reg_p abc_pass2) XX \<and> \<not> bit (reg_p abc_pass2) VF)
   \<and> ((step abc_start = Running abc_pass1 \<or> step abc_start = Exited 0 abc_pass1)
      \<and> VF \<notin> {CF, ZF, NF})
   \<and> bit (reg_p abc_pass1) VF = bit (reg_p abc_start) VF"
proof -
  have b: "boot (Inr abc_image) = Running abc_start"
    by (simp add: boot_image abc_start_def abc_mem_def)
  have f0: "mem abc_start = abc_mem" "pc abc_start = 0"
    by (simp_all add: abc_start_def globals0_def)
  have 1: "step abc_start = Running abc_pass1"
    using f0 by (simp add: step_clc abc_mem_at abc_pass1_def)
  have f1: "mem abc_pass1 = abc_mem" "pc abc_pass1 = 1"
    using f0 by (simp_all add: abc_pass1_def)
  have 2: "step abc_pass1 = Running abc_pass2"
    using f1 by (simp add: step_lda abc_mem_at abc_pass2_def)
  have "steps (Suc (Suc 0)) abc_start = Running abc_pass2"
    by (simp add: 1 2)
  then have s: "steps 2 abc_start = Running abc_pass2"
    by (simp add: numeral_2_eq_2)
  have v: "VF \<notin> {CF, ZF, NF}"
    by (simp add: VF_def CF_def ZF_def NF_def)
  from flags_invariant [of "Inr abc_image" abc_start 2 abc_pass2 0 abc_start abc_pass1 0 VF]
    b s 1 v show ?thesis
    by simp
qed

end
